theory Spec2Isabelle
  imports Main
begin

section \<open>The icon renderer of generate_icon.py\<close>

text \<open>
  The script has one function, \<open>create_notification_bell_icon(size, output_path)\<close>.
  It allocates a canvas, issues six drawing calls whose coordinates are integer
  formulas in \<open>size\<close>, creates the parent directory of \<open>output_path\<close>, saves the
  canvas as a PNG and prints two lines. Python integers are unbounded and \<open>//\<close>
  is floor division, which is \<open>div\<close> on \<open>int\<close>.
\<close>

subsection \<open>Geometry (lines 18 to 70 of the script)\<close>

definition corner_radius :: "int \<Rightarrow> int" where
  "corner_radius sz = sz div 5"

definition center_x :: "int \<Rightarrow> int" where
  "center_x sz = sz div 2"

definition center_y :: "int \<Rightarrow> int" where
  "center_y sz = sz div 2"

definition bell_width :: "int \<Rightarrow> int" where
  "bell_width sz = sz div 3"

definition bell_height :: "int \<Rightarrow> int" where
  "bell_height sz = sz div 3"

definition bell_top_y :: "int \<Rightarrow> int" where
  "bell_top_y sz = center_y sz - bell_height sz div 2"

definition bell_bottom_y :: "int \<Rightarrow> int" where
  "bell_bottom_y sz = center_y sz + bell_height sz div 4"

definition bell_left_x :: "int \<Rightarrow> int" where
  "bell_left_x sz = center_x sz - bell_width sz div 2"

definition bell_right_x :: "int \<Rightarrow> int" where
  "bell_right_x sz = center_x sz + bell_width sz div 2"

type_synonym point = "int \<times> int"

definition bell_points :: "int \<Rightarrow> point list" where
  "bell_points sz =
     [(center_x sz - bell_width sz div 3, bell_top_y sz),
      (center_x sz + bell_width sz div 3, bell_top_y sz),
      (bell_right_x sz, bell_bottom_y sz),
      (bell_left_x sz, bell_bottom_y sz)]"

definition handle_width :: "int \<Rightarrow> int" where
  "handle_width sz = bell_width sz div 6"

definition handle_height :: "int \<Rightarrow> int" where
  "handle_height sz = bell_height sz div 6"

definition handle_y :: "int \<Rightarrow> int" where
  "handle_y sz = bell_top_y sz - handle_height sz"

definition rim_height :: "int \<Rightarrow> int" where
  "rim_height sz = bell_height sz div 15"

definition clapper_radius :: "int \<Rightarrow> int" where
  "clapper_radius sz = bell_width sz div 8"

definition clapper_y :: "int \<Rightarrow> int" where
  "clapper_y sz = bell_bottom_y sz + clapper_radius sz + rim_height sz * 2"

definition dot_radius :: "int \<Rightarrow> int" where
  "dot_radius sz = sz div 12"

definition dot_x :: "int \<Rightarrow> int" where
  "dot_x sz = center_x sz + bell_width sz div 2 + dot_radius sz div 2"

definition dot_y :: "int \<Rightarrow> int" where
  "dot_y sz = center_y sz - bell_height sz div 2 - dot_radius sz div 2"

lemmas geometry_defs =
  corner_radius_def center_x_def center_y_def bell_width_def bell_height_def
  bell_top_y_def bell_bottom_y_def bell_left_x_def bell_right_x_def bell_points_def
  handle_width_def handle_height_def handle_y_def rim_height_def clapper_radius_def
  clapper_y_def dot_radius_def dot_x_def dot_y_def

text \<open>
  The eight dimensions the script computes (as opposed to positions), in the
  order of their assignment.
\<close>

definition dimensions :: "int \<Rightarrow> int list" where
  "dimensions sz =
     [corner_radius sz, bell_width sz, bell_height sz, handle_width sz,
      handle_height sz, rim_height sz, clapper_radius sz, dot_radius sz]"

subsection \<open>The canvas and the drawing calls\<close>

text \<open>
  A fill is given to the imaging library either as a 4-tuple or as a colour name.
  The drawing calls are kept as data, in the order the script issues them.
\<close>

datatype fill = RGBA int int int int | Named string

datatype draw_op =
    Rounded_rectangle point point int fill
  | Polygon "point list" fill
  | Rectangle point point fill
  | Ellipse point point fill

record image =
  mode :: string
  width :: int
  height :: int
  initial :: fill
  drawn :: "draw_op list"

datatype py_error =
    ValueError
  | FileNotFoundError
  | FileExistsError
  | NotADirectoryError
  | IsADirectoryError
  | EncoderError

text \<open>
  \<open>Image.new(mode, (w, h), color)\<close>: the library refuses a negative width or
  height with a ValueError and otherwise returns a canvas filled with \<open>color\<close>.
\<close>

definition Image_new :: "string \<Rightarrow> int \<times> int \<Rightarrow> fill \<Rightarrow> py_error + image" where
  "Image_new m wh c =
     (if fst wh < 0 \<or> snd wh < 0 then Inl ValueError
      else Inr \<lparr>mode = m, width = fst wh, height = snd wh, initial = c, drawn = []\<rparr>)"

definition draw :: "draw_op \<Rightarrow> image \<Rightarrow> image" where
  "draw op img = img\<lparr>drawn := drawn img @ [op]\<rparr>"

definition bg_color :: fill where
  "bg_color = RGBA 59 130 246 255"

definition dot_color :: fill where
  "dot_color = RGBA 239 68 68 255"

text \<open>The six drawing calls of lines 20 to 75, in program order.\<close>

definition draw_calls :: "int \<Rightarrow> draw_op list" where
  "draw_calls sz =
     [Rounded_rectangle (0, 0) (sz, sz) (corner_radius sz) bg_color,
      Polygon (bell_points sz) (Named ''white''),
      Rectangle (center_x sz - handle_width sz div 2, handle_y sz)
                (center_x sz + handle_width sz div 2, bell_top_y sz) (Named ''white''),
      Rectangle (bell_left_x sz, bell_bottom_y sz)
                (bell_right_x sz, bell_bottom_y sz + rim_height sz) (Named ''white''),
      Ellipse (center_x sz - clapper_radius sz, clapper_y sz - clapper_radius sz)
              (center_x sz + clapper_radius sz, clapper_y sz + clapper_radius sz)
              (Named ''white''),
      Ellipse (dot_x sz - dot_radius sz, dot_y sz - dot_radius sz)
              (dot_x sz + dot_radius sz, dot_y sz + dot_radius sz) dot_color]"

text \<open>Lines 14 to 75: the canvas after all drawing calls.\<close>

definition paint_icon :: "int \<Rightarrow> py_error + image" where
  "paint_icon sz =
     (case Image_new ''RGBA'' (sz, sz) (RGBA 0 0 0 0) of
        Inl e \<Rightarrow> Inl e
      | Inr img \<Rightarrow> Inr (foldl (\<lambda>i op. draw op i) img (draw_calls sz)))"

text \<open>
  What the drawing calls mean is the imaging library's business. The model keeps
  only this much of it: each call has a fill and a list of coordinate points, and a
  call replaces the colour of the pixels it covers (the library writes pixels, it
  does not blend). Which pixels a call covers is the library's rasteriser, taken
  as a parameter \<open>cov\<close>.
\<close>

fun fill_of :: "draw_op \<Rightarrow> fill" where
  "fill_of (Rounded_rectangle p q r c) = c"
| "fill_of (Polygon ps c) = c"
| "fill_of (Rectangle p q c) = c"
| "fill_of (Ellipse p q c) = c"

fun coords :: "draw_op \<Rightarrow> point list" where
  "coords (Rounded_rectangle p q r c) = [p, q]"
| "coords (Polygon ps c) = ps"
| "coords (Rectangle p q c) = [p, q]"
| "coords (Ellipse p q c) = [p, q]"

fun pixel_after :: "(draw_op \<Rightarrow> point \<Rightarrow> bool) \<Rightarrow> fill \<Rightarrow> draw_op list \<Rightarrow> point \<Rightarrow> fill" where
  "pixel_after cov c [] p = c"
| "pixel_after cov c (op # ops) p = pixel_after cov (if cov op p then fill_of op else c) ops p"

definition getpixel :: "(draw_op \<Rightarrow> point \<Rightarrow> bool) \<Rightarrow> image \<Rightarrow> point \<Rightarrow> fill option" where
  "getpixel cov img p =
     (if 0 \<le> fst p \<and> fst p < width img \<and> 0 \<le> snd p \<and> snd p < height img
      then Some (pixel_after cov (initial img) (drawn img) p) else None)"

definition in_canvas :: "int \<Rightarrow> point \<Rightarrow> bool" where
  "in_canvas sz p = (0 \<le> fst p \<and> fst p \<le> sz \<and> 0 \<le> snd p \<and> snd p \<le> sz)"

subsection \<open>Paths and the file system\<close>

text \<open>
  \<open>os.path.dirname\<close> (posixpath): the part of the path up to and including the
  last slash, \<open>p[:p.rfind('/') + 1]\<close>, with its trailing slashes removed unless it
  consists of slashes only. \<open>os.path.basename\<close> is what follows the last slash.
\<close>

definition path_head :: "string \<Rightarrow> string" where
  "path_head p = rev (dropWhile (\<lambda>c. c \<noteq> CHR ''/'') (rev p))"

definition rstrip_sep :: "string \<Rightarrow> string" where
  "rstrip_sep s = rev (dropWhile (\<lambda>c. c = CHR ''/'') (rev s))"

definition dirname :: "string \<Rightarrow> string" where
  "dirname p =
     (let head = path_head p
      in if head \<noteq> [] \<and> head \<noteq> replicate (length head) (CHR ''/'')
         then rstrip_sep head else head)"

definition basename :: "string \<Rightarrow> string" where
  "basename p = rev (takeWhile (\<lambda>c. c \<noteq> CHR ''/'') (rev p))"

text \<open>\<open>p.split('/')\<close>: the components of a path, empty ones included.\<close>

fun split_sep :: "string \<Rightarrow> string list" where
  "split_sep [] = [[]]"
| "split_sep (c # cs) =
     (if c = CHR ''/'' then [] # split_sep cs
      else (c # hd (split_sep cs)) # tl (split_sep cs))"

text \<open>
  The world outside the function: a file system and the console. A location is
  the list of names leading to it from the root; each location holds a directory
  or a regular file with its bytes. Permissions, links, devices and a full disk
  are outside this model: every directory may be written to.
\<close>

datatype node = Dir | File "nat list"

type_synonym location = "string list"

record world =
  nodes :: "location \<Rightarrow> node option"
  cwd :: location
  stdout :: "string list"

text \<open>
  Name resolution: an absolute path starts at the root, a relative one at the
  working directory. An empty component and \<open>.\<close> stay where they are, \<open>..\<close>
  goes to the parent, a name goes down.
\<close>

definition start :: "world \<Rightarrow> string \<Rightarrow> location" where
  "start w p = (if p \<noteq> [] \<and> hd p = CHR ''/'' then [] else cwd w)"

definition step :: "location \<Rightarrow> string \<Rightarrow> location" where
  "step cur c =
     (if c = [] \<or> c = ''.'' then cur else if c = ''..'' then butlast cur else cur @ [c])"

fun visited :: "location \<Rightarrow> string list \<Rightarrow> location list" where
  "visited cur [] = []"
| "visited cur (c # cs) = step cur c # visited (step cur c) cs"

definition target :: "world \<Rightarrow> string \<Rightarrow> location" where
  "target w p = foldl step (start w p) (split_sep p)"


text \<open>
  \<open>os.makedirs(name, exist_ok)\<close>: the empty name raises FileNotFoundError.
  Otherwise each component of the name is entered in turn; a missing directory is
  created, a regular file in the way raises (FileExistsError at the leaf,
  NotADirectoryError before it), and an existing leaf directory raises
  FileExistsError unless \<open>exist_ok\<close> is set.
\<close>

fun mkdirs ::
  "bool \<Rightarrow> (location \<Rightarrow> node option) \<Rightarrow> location \<Rightarrow> string list
     \<Rightarrow> py_error + (location \<Rightarrow> node option)" where
  "mkdirs exist_ok ns cur [] = Inr ns"
| "mkdirs exist_ok ns cur (c # cs) =
     (case ns (step cur c) of
        None \<Rightarrow> mkdirs exist_ok (ns(step cur c \<mapsto> Dir)) (step cur c) cs
      | Some Dir \<Rightarrow>
          (if cs = [] \<and> \<not> exist_ok then Inl FileExistsError
           else mkdirs exist_ok ns (step cur c) cs)
      | Some (File b) \<Rightarrow> Inl (if cs = [] then FileExistsError else NotADirectoryError))"

definition os_makedirs :: "string \<Rightarrow> bool \<Rightarrow> world \<Rightarrow> py_error + world" where
  "os_makedirs name exist_ok w =
     (if name = [] then Inl FileNotFoundError
      else case mkdirs exist_ok (nodes w) (start w name) (split_sep name) of
             Inl e \<Rightarrow> Inl e
           | Inr ns \<Rightarrow> Inr (w\<lparr>nodes := ns\<rparr>))"

text \<open>
  Opening a file for writing resolves the path: every location on the way has to
  be a directory, and so has the place where an empty last component, \<open>.\<close> or
  \<open>..\<close> ends. The resolved location must not be a directory itself.
\<close>

fun lookup ::
  "(location \<Rightarrow> node option) \<Rightarrow> location \<Rightarrow> string list \<Rightarrow> py_error + location" where
  "lookup ns cur [] = Inr cur"
| "lookup ns cur (c # cs) =
     (case ns cur of
        None \<Rightarrow> Inl FileNotFoundError
      | Some Dir \<Rightarrow> lookup ns (step cur c) cs
      | Some (File b) \<Rightarrow> Inl NotADirectoryError)"

definition open_w :: "string \<Rightarrow> world \<Rightarrow> py_error + location" where
  "open_w path w =
     (if path = [] then Inl FileNotFoundError
      else case lookup (nodes w) (start w path) (split_sep path) of
             Inl e \<Rightarrow> Inl e
           | Inr loc \<Rightarrow> (case nodes w loc of Some Dir \<Rightarrow> Inl IsADirectoryError | _ \<Rightarrow> Inr loc))"

text \<open>
  \<open>img.save(path, 'PNG')\<close> opens the file for writing, which creates or truncates
  it, and writes the encoded image. The PNG encoder belongs to the imaging
  library; it is the parameter \<open>png\<close>, a function from the image to its bytes or
  to an error.
\<close>

definition Image_save ::
  "(image \<Rightarrow> py_error + nat list) \<Rightarrow> image \<Rightarrow> string \<Rightarrow> world \<Rightarrow> py_error + world" where
  "Image_save png img path w =
     (case open_w path w of
        Inl e \<Rightarrow> Inl e
      | Inr loc \<Rightarrow>
          (case png img of
             Inl e \<Rightarrow> Inl e
           | Inr bytes \<Rightarrow> Inr (w\<lparr>nodes := (nodes w)(loc \<mapsto> File bytes)\<rparr>)))"

definition print :: "string \<Rightarrow> world \<Rightarrow> world" where
  "print line w = w\<lparr>stdout := stdout w @ [line]\<rparr>"

text \<open>\<open>str\<close> of an integer, as an f-string formats it.\<close>

fun digits10 :: "nat \<Rightarrow> string" where
  "digits10 n =
     (if n < 10 then [''0123456789'' ! n]
      else digits10 (n div 10) @ [''0123456789'' ! (n mod 10)])"

declare digits10.simps [simp del]

definition str_int :: "int \<Rightarrow> string" where
  "str_int i = (if i < 0 then CHR ''-'' # digits10 (nat (- i)) else digits10 (nat i))"

subsection \<open>The function\<close>

text \<open>
  \<open>create_notification_bell_icon(size, output_path)\<close>, lines 10 to 81. An
  exception ends the call: the steps after it do not run. An error value carries
  no world, so what a failed call has left behind is not recorded.
\<close>

definition create_notification_bell_icon ::
  "(image \<Rightarrow> py_error + nat list) \<Rightarrow> int \<Rightarrow> string \<Rightarrow> world \<Rightarrow> py_error + world" where
  "create_notification_bell_icon png sz output_path w =
     (case paint_icon sz of
        Inl e \<Rightarrow> Inl e
      | Inr img \<Rightarrow>
          (case os_makedirs (dirname output_path) True w of
             Inl e \<Rightarrow> Inl e
           | Inr w1 \<Rightarrow>
               (case Image_save png img output_path w1 of
                  Inl e \<Rightarrow> Inl e
                | Inr w2 \<Rightarrow>
                    Inr (print (''Size: '' @ str_int sz @ ''x'' @ str_int sz @ '' pixels'')
                          (print (''Icon generated: '' @ output_path) w2)))))"

section \<open>Properties of the geometry\<close>

lemma floor_div_bounds:
  fixes x k :: int
  assumes "0 < k"
  shows "k * (x div k) \<le> x" and "x < k * (x div k) + k"
proof -
  have e: "k * (x div k) + x mod k = x" by simp
  have "0 \<le> x mod k" "x mod k < k" using assms by simp_all
  with e show "k * (x div k) \<le> x" and "x < k * (x div k) + k" by linarith+
qed

lemma floor_div_nonneg: "0 \<le> x \<Longrightarrow> 0 < k \<Longrightarrow> 0 \<le> x div (k::int)"
  by (simp add: pos_imp_zdiv_nonneg_iff)

text \<open>
  Every coordinate handed to a drawing call lies between 0 and \<open>size\<close>. The floor
  divisions are named first, so that each bound is a problem of linear arithmetic
  over their quotients.
\<close>

lemma coordinate_bounds:
  assumes "0 \<le> sz"
  shows
    "0 \<le> center_x sz - bell_width sz div 3" "center_x sz - bell_width sz div 3 \<le> sz"
    "0 \<le> center_x sz + bell_width sz div 3" "center_x sz + bell_width sz div 3 \<le> sz"
    "0 \<le> bell_left_x sz" "bell_left_x sz \<le> sz"
    "0 \<le> bell_right_x sz" "bell_right_x sz \<le> sz"
    "0 \<le> bell_top_y sz" "bell_top_y sz \<le> sz"
    "0 \<le> bell_bottom_y sz" "bell_bottom_y sz \<le> sz"
    "0 \<le> center_x sz - handle_width sz div 2" "center_x sz - handle_width sz div 2 \<le> sz"
    "0 \<le> center_x sz + handle_width sz div 2" "center_x sz + handle_width sz div 2 \<le> sz"
    "0 \<le> handle_y sz" "handle_y sz \<le> sz"
    "0 \<le> bell_bottom_y sz + rim_height sz" "bell_bottom_y sz + rim_height sz \<le> sz"
    "0 \<le> center_x sz - clapper_radius sz" "center_x sz - clapper_radius sz \<le> sz"
    "0 \<le> center_x sz + clapper_radius sz" "center_x sz + clapper_radius sz \<le> sz"
    "0 \<le> clapper_y sz - clapper_radius sz" "clapper_y sz - clapper_radius sz \<le> sz"
    "0 \<le> clapper_y sz + clapper_radius sz" "clapper_y sz + clapper_radius sz \<le> sz"
    "0 \<le> dot_x sz - dot_radius sz" "dot_x sz - dot_radius sz \<le> sz"
    "0 \<le> dot_x sz + dot_radius sz" "dot_x sz + dot_radius sz \<le> sz"
    "0 \<le> dot_y sz - dot_radius sz" "dot_y sz - dot_radius sz \<le> sz"
    "0 \<le> dot_y sz + dot_radius sz" "dot_y sz + dot_radius sz \<le> sz"
proof -
  define c where "c = sz div 2"
  define w where "w = sz div 3"
  define w2 where "w2 = w div 2"
  define w3 where "w3 = w div 3"
  define w4 where "w4 = w div 4"
  define w6 where "w6 = w div 6"
  define w62 where "w62 = w6 div 2"
  define w15 where "w15 = w div 15"
  define w8 where "w8 = w div 8"
  define r where "r = sz div 12"
  define r2 where "r2 = r div 2"
  note defs = c_def w_def w2_def w3_def w4_def w6_def w62_def w15_def w8_def r_def r2_def
  have c: "2 * c \<le> sz" "sz < 2 * c + 2"
    unfolding c_def by (rule floor_div_bounds, simp)+
  have w: "3 * w \<le> sz" "0 \<le> w"
    unfolding w_def using assms by (simp_all add: floor_div_bounds floor_div_nonneg)
  have w2: "2 * w2 \<le> w" "0 \<le> w2"
    unfolding w2_def using w(2) by (simp_all add: floor_div_bounds floor_div_nonneg)
  have w3: "3 * w3 \<le> w" "0 \<le> w3"
    unfolding w3_def using w(2) by (simp_all add: floor_div_bounds floor_div_nonneg)
  have w4: "4 * w4 \<le> w" "0 \<le> w4"
    unfolding w4_def using w(2) by (simp_all add: floor_div_bounds floor_div_nonneg)
  have w6: "6 * w6 \<le> w" "0 \<le> w6"
    unfolding w6_def using w(2) by (simp_all add: floor_div_bounds floor_div_nonneg)
  have w62: "2 * w62 \<le> w6" "0 \<le> w62"
    unfolding w62_def using w6(2) by (simp_all add: floor_div_bounds floor_div_nonneg)
  have w15: "15 * w15 \<le> w" "0 \<le> w15"
    unfolding w15_def using w(2) by (simp_all add: floor_div_bounds floor_div_nonneg)
  have w8: "8 * w8 \<le> w" "0 \<le> w8"
    unfolding w8_def using w(2) by (simp_all add: floor_div_bounds floor_div_nonneg)
  have r: "12 * r \<le> sz" "0 \<le> r"
    unfolding r_def using assms by (simp_all add: floor_div_bounds floor_div_nonneg)
  have r2: "2 * r2 \<le> r" "0 \<le> r2"
    unfolding r2_def using r(2) by (simp_all add: floor_div_bounds floor_div_nonneg)
  have e0: "center_x sz - bell_width sz div 3 = c - w3"
    by (simp add: geometry_defs defs)
  have e1: "center_x sz + bell_width sz div 3 = c + w3"
    by (simp add: geometry_defs defs)
  have e2: "bell_left_x sz = c - w2"
    by (simp add: geometry_defs defs)
  have e3: "bell_right_x sz = c + w2"
    by (simp add: geometry_defs defs)
  have e4: "bell_top_y sz = c - w2"
    by (simp add: geometry_defs defs)
  have e5: "bell_bottom_y sz = c + w4"
    by (simp add: geometry_defs defs)
  have e6: "center_x sz - handle_width sz div 2 = c - w62"
    by (simp add: geometry_defs defs)
  have e7: "center_x sz + handle_width sz div 2 = c + w62"
    by (simp add: geometry_defs defs)
  have e8: "handle_y sz = c - w2 - w6"
    by (simp add: geometry_defs defs)
  have e9: "bell_bottom_y sz + rim_height sz = c + w4 + w15"
    by (simp add: geometry_defs defs)
  have e10: "center_x sz - clapper_radius sz = c - w8"
    by (simp add: geometry_defs defs)
  have e11: "center_x sz + clapper_radius sz = c + w8"
    by (simp add: geometry_defs defs)
  have e12: "clapper_y sz - clapper_radius sz = c + w4 + 2 * w15"
    by (simp add: geometry_defs defs)
  have e13: "clapper_y sz + clapper_radius sz = c + w4 + 2 * w8 + 2 * w15"
    by (simp add: geometry_defs defs)
  have e14: "dot_x sz - dot_radius sz = c + w2 + r2 - r"
    by (simp add: geometry_defs defs)
  have e15: "dot_x sz + dot_radius sz = c + w2 + r2 + r"
    by (simp add: geometry_defs defs)
  have e16: "dot_y sz - dot_radius sz = c - w2 - r2 - r"
    by (simp add: geometry_defs defs)
  have e17: "dot_y sz + dot_radius sz = c - w2 - r2 + r"
    by (simp add: geometry_defs defs)
  show "0 \<le> center_x sz - bell_width sz div 3" "center_x sz - bell_width sz div 3 \<le> sz"
    unfolding e0 using assms c w w3 by linarith+
  show "0 \<le> center_x sz + bell_width sz div 3" "center_x sz + bell_width sz div 3 \<le> sz"
    unfolding e1 using assms c w w3 by linarith+
  show "0 \<le> bell_left_x sz" "bell_left_x sz \<le> sz"
    unfolding e2 using assms c w w2 by linarith+
  show "0 \<le> bell_right_x sz" "bell_right_x sz \<le> sz"
    unfolding e3 using assms c w w2 by linarith+
  show "0 \<le> bell_top_y sz" "bell_top_y sz \<le> sz"
    unfolding e4 using assms c w w2 by linarith+
  show "0 \<le> bell_bottom_y sz" "bell_bottom_y sz \<le> sz"
    unfolding e5 using assms c w w4 by linarith+
  show "0 \<le> center_x sz - handle_width sz div 2" "center_x sz - handle_width sz div 2 \<le> sz"
    unfolding e6 using assms c w w6 w62 by linarith+
  show "0 \<le> center_x sz + handle_width sz div 2" "center_x sz + handle_width sz div 2 \<le> sz"
    unfolding e7 using assms c w w6 w62 by linarith+
  show "0 \<le> handle_y sz" "handle_y sz \<le> sz"
    unfolding e8 using assms c w w2 w6 by linarith+
  show "0 \<le> bell_bottom_y sz + rim_height sz" "bell_bottom_y sz + rim_height sz \<le> sz"
    unfolding e9 using assms c w w4 w15 by linarith+
  show "0 \<le> center_x sz - clapper_radius sz" "center_x sz - clapper_radius sz \<le> sz"
    unfolding e10 using assms c w w8 by linarith+
  show "0 \<le> center_x sz + clapper_radius sz" "center_x sz + clapper_radius sz \<le> sz"
    unfolding e11 using assms c w w8 by linarith+
  show "0 \<le> clapper_y sz - clapper_radius sz" "clapper_y sz - clapper_radius sz \<le> sz"
    unfolding e12 using assms c w w4 w15 by linarith+
  show "0 \<le> clapper_y sz + clapper_radius sz" "clapper_y sz + clapper_radius sz \<le> sz"
    unfolding e13 using assms c w w4 w8 w15 by linarith+
  show "0 \<le> dot_x sz - dot_radius sz" "dot_x sz - dot_radius sz \<le> sz"
    unfolding e14 using assms c w w2 r r2 by linarith+
  show "0 \<le> dot_x sz + dot_radius sz" "dot_x sz + dot_radius sz \<le> sz"
    unfolding e15 using assms c w w2 r r2 by linarith+
  show "0 \<le> dot_y sz - dot_radius sz" "dot_y sz - dot_radius sz \<le> sz"
    unfolding e16 using assms c w w2 r r2 by linarith+
  show "0 \<le> dot_y sz + dot_radius sz" "dot_y sz + dot_radius sz \<le> sz"
    unfolding e17 using assms c w w2 r r2 by linarith+
qed

lemma rim_height_nonneg: "0 \<le> sz \<Longrightarrow> 0 \<le> rim_height sz"
  by (simp add: rim_height_def bell_height_def floor_div_nonneg)


lemma foldl_draw: "foldl (\<lambda>i op. draw op i) img ops = img\<lparr>drawn := drawn img @ ops\<rparr>"
  by (induction ops arbitrary: img) (simp_all add: draw_def)

lemma paint_icon_nonneg:
  "0 \<le> sz \<Longrightarrow> paint_icon sz =
     Inr \<lparr>mode = ''RGBA'', width = sz, height = sz, initial = RGBA 0 0 0 0,
          drawn = draw_calls sz\<rparr>"
  by (simp add: paint_icon_def Image_new_def foldl_draw)

lemma paint_icon_negative: "sz < 0 \<Longrightarrow> paint_icon sz = Inl ValueError"
  by (simp add: paint_icon_def Image_new_def)

lemma paint_icon_Inr:
  "paint_icon sz = Inr img \<longleftrightarrow>
     0 \<le> sz \<and> img = \<lparr>mode = ''RGBA'', width = sz, height = sz, initial = RGBA 0 0 0 0,
                       drawn = draw_calls sz\<rparr>"
  by (cases "0 \<le> sz") (auto simp add: paint_icon_nonneg paint_icon_negative)

lemma pixel_after_snoc:
  "pixel_after cov c (ops @ [op]) p = (if cov op p then fill_of op else pixel_after cov c ops p)"
  by (induction ops arbitrary: c) simp_all

text \<open>
  The call issued last decides the colour of every pixel it covers: nothing is
  drawn over the notification dot.
\<close>

lemma dot_not_overdrawn:
  assumes "paint_icon sz = Inr img" and "cov (last (draw_calls sz)) p"
    and "getpixel cov img p = Some col"
  shows "col = RGBA 239 68 68 255"
proof -
  have nn: "0 \<le> sz" using assms(1) by (cases "0 \<le> sz") (simp_all add: paint_icon_negative)
  have d: "drawn img = butlast (draw_calls sz) @ [last (draw_calls sz)]"
    using assms(1) nn by (auto simp add: paint_icon_nonneg draw_calls_def)
  have "fill_of (last (draw_calls sz)) = RGBA 239 68 68 255"
    by (simp add: draw_calls_def dot_color_def)
  then show ?thesis
    using assms(2,3) unfolding getpixel_def d pixel_after_snoc by (simp split: if_splits)
qed

lemma double_floor_div:
  fixes x k :: int
  assumes "0 < k"
  shows "(2 * x) div k - 2 * (x div k) \<in> {0, 1}"
proof -
  define q where "q = x div k"
  define q' where "q' = (2 * x) div k"
  have a: "k * q \<le> x" "x < k * q + k"
    unfolding q_def using floor_div_bounds [OF assms] by auto
  have b: "k * q' \<le> 2 * x" "2 * x < k * q' + k"
    unfolding q'_def using floor_div_bounds [OF assms] by auto
  have "k * q' < k * (2 * q + 2)" using a b by (simp add: algebra_simps)
  then have u: "q' < 2 * q + 2" using assms by (simp only: mult_less_cancel_left_pos)
  have "k * (2 * q) < k * (q' + 1)" using a b by (simp add: algebra_simps)
  then have l: "2 * q < q' + 1" using assms by (simp only: mult_less_cancel_left_pos)
  have "q' - 2 * q \<in> {0, 1}" using u l by auto
  then show ?thesis unfolding q_def q'_def .
qed

lemma nested_floor_div: "0 < b \<Longrightarrow> 0 < c \<Longrightarrow> (x::int) div b div c = x div (b * c)"
  by (simp add: zdiv_zmult2_eq)

text \<open>
  Doubling the size doubles every dimension up to the rounding of the floor
  divisions: the value at \<open>2 * s\<close> exceeds twice the value at \<open>s\<close> by 0 or by 1.
\<close>

lemma dimensions_scale:
  "list_all2 (\<lambda>a b. a - 2 * b \<in> {0, 1}) (dimensions (2 * s)) (dimensions s)"
proof -
  have d: "(2 * s) div k - 2 * (s div k) \<in> {0, 1}" if "0 < k" for k :: int
    using that by (rule double_floor_div)
  have n: "x div 3 div 6 = x div 18" "x div 3 div 15 = x div 45" "x div 3 div 8 = x div 24"
    for x :: int
    by (simp_all add: nested_floor_div)
  have "corner_radius (2 * s) - 2 * corner_radius s \<in> {0, 1}"
    "bell_width (2 * s) - 2 * bell_width s \<in> {0, 1}"
    "bell_height (2 * s) - 2 * bell_height s \<in> {0, 1}"
    "handle_width (2 * s) - 2 * handle_width s \<in> {0, 1}"
    "handle_height (2 * s) - 2 * handle_height s \<in> {0, 1}"
    "rim_height (2 * s) - 2 * rim_height s \<in> {0, 1}"
    "clapper_radius (2 * s) - 2 * clapper_radius s \<in> {0, 1}"
    "dot_radius (2 * s) - 2 * dot_radius s \<in> {0, 1}"
    unfolding geometry_defs n by (rule d, simp)+
  then show ?thesis
    unfolding dimensions_def by (simp only: list_all2_Cons list_all2_Nil simp_thms)
qed

text \<open>
  C1. Each of the eight computed dimensions (corner_radius, bell_width, bell_height,
  handle_width, handle_height, rim_height, clapper_radius, dot_radius) at size 2048
  is within one pixel of twice its value at size 1024.
\<close>

theorem C1_dimensions_double_2048:
  "\<bar>corner_radius 2048 - 2 * corner_radius 1024\<bar> \<le> 1
   \<and> \<bar>bell_width 2048 - 2 * bell_width 1024\<bar> \<le> 1
   \<and> \<bar>bell_height 2048 - 2 * bell_height 1024\<bar> \<le> 1
   \<and> \<bar>handle_width 2048 - 2 * handle_width 1024\<bar> \<le> 1
   \<and> \<bar>handle_height 2048 - 2 * handle_height 1024\<bar> \<le> 1
   \<and> \<bar>rim_height 2048 - 2 * rim_height 1024\<bar> \<le> 1
   \<and> \<bar>clapper_radius 2048 - 2 * clapper_radius 1024\<bar> \<le> 1
   \<and> \<bar>dot_radius 2048 - 2 * dot_radius 1024\<bar> \<le> 1"
  by (simp add: geometry_defs)


text \<open>
  C3. For every positive size the canvas is allocated in mode RGBA with every pixel
  (0, 0, 0, 0), that is fully transparent, and the image the drawing calls leave
  has width and height equal to size, still in mode RGBA: a pixel exists exactly at
  the positions (x, y) with 0 \<le> x < size and 0 \<le> y < size.
\<close>

theorem C3_canvas_size_rgba:
  "0 < sz \<Longrightarrow>
   \<exists>canvas img.
     Image_new ''RGBA'' (sz, sz) (RGBA 0 0 0 0) = Inr canvas
     \<and> (\<forall>p. getpixel cov canvas p =
            (if 0 \<le> fst p \<and> fst p < sz \<and> 0 \<le> snd p \<and> snd p < sz
             then Some (RGBA 0 0 0 0) else None))
     \<and> paint_icon sz = Inr img
     \<and> mode img = ''RGBA'' \<and> width img = sz \<and> height img = sz
     \<and> (\<forall>p. getpixel cov img p \<noteq> None \<longleftrightarrow>
            0 \<le> fst p \<and> fst p < sz \<and> 0 \<le> snd p \<and> snd p < sz)"
  by (simp add: paint_icon_nonneg Image_new_def getpixel_def)

theorem C3_canvas_size_rgba_witness:
  "(0::int) < 1024 \<and>
   (\<exists>canvas img.
     Image_new ''RGBA'' (1024, 1024) (RGBA 0 0 0 0) = Inr canvas
     \<and> (\<forall>p. getpixel (\<lambda>op p. True) canvas p =
            (if 0 \<le> fst p \<and> fst p < 1024 \<and> 0 \<le> snd p \<and> snd p < 1024
             then Some (RGBA 0 0 0 0) else None))
     \<and> paint_icon 1024 = Inr img
     \<and> mode img = ''RGBA'' \<and> width img = 1024 \<and> height img = 1024
     \<and> (\<forall>p. getpixel (\<lambda>op p. True) img p \<noteq> None \<longleftrightarrow>
            0 \<le> fst p \<and> fst p < 1024 \<and> 0 \<le> snd p \<and> snd p < 1024))"
  using C3_canvas_size_rgba [of 1024 "\<lambda>op p. True"] by simp

text \<open>
  C4. In the image the function paints, the drawing call applied last is the
  notification dot: an ellipse filled with (239, 68, 68, 255) whose bounding box is
  the square of half-side r = size // 12 around the point (x, y), where x is the
  right edge of the bell's box, center_x + bell_width // 2, plus r // 2, and y is
  the top edge of the bell's box, center_y - bell_height // 2, minus r // 2. Being
  last, it is drawn over by nothing: every pixel of the canvas that the dot covers
  has the dot's colour in the finished image.
\<close>

theorem C4_notification_dot_last:
  "paint_icon sz = Inr img \<Longrightarrow>
   (let r = sz div 12;
        x = center_x sz + bell_width sz div 2 + r div 2;
        y = center_y sz - bell_height sz div 2 - r div 2
    in drawn img \<noteq> []
       \<and> last (drawn img) = Ellipse (x - r, y - r) (x + r, y + r) (RGBA 239 68 68 255)
       \<and> x = bell_right_x sz + r div 2 \<and> y = bell_top_y sz - r div 2
       \<and> (\<forall>p. 0 \<le> fst p \<and> fst p < sz \<and> 0 \<le> snd p \<and> snd p < sz
                \<and> cov (last (drawn img)) p
              \<longrightarrow> getpixel cov img p = Some (RGBA 239 68 68 255)))"
proof -
  assume a: "paint_icon sz = Inr img"
  then have img: "img = \<lparr>mode = ''RGBA'', width = sz, height = sz, initial = RGBA 0 0 0 0,
                          drawn = draw_calls sz\<rparr>"
    by (simp add: paint_icon_Inr)
  have d: "drawn img = butlast (draw_calls sz) @ [last (draw_calls sz)]"
    unfolding img by (simp add: draw_calls_def)
  have l: "last (drawn img) = last (draw_calls sz)"
    unfolding img by simp
  have f: "fill_of (last (draw_calls sz)) = RGBA 239 68 68 255"
    by (simp add: draw_calls_def dot_color_def)
  have px: "getpixel cov img p = Some (RGBA 239 68 68 255)"
    if "0 \<le> fst p \<and> fst p < sz \<and> 0 \<le> snd p \<and> snd p < sz \<and> cov (last (drawn img)) p" for p
    using that unfolding getpixel_def d pixel_after_snoc
    by (simp add: img f)
  have e: "last (draw_calls sz) =
      Ellipse (dot_x sz - dot_radius sz, dot_y sz - dot_radius sz)
              (dot_x sz + dot_radius sz, dot_y sz + dot_radius sz) (RGBA 239 68 68 255)"
    by (simp add: draw_calls_def dot_color_def)
  have ne: "drawn img \<noteq> []" unfolding d by simp
  show ?thesis
    unfolding Let_def
    using px ne
    by (simp add: l e dot_x_def dot_y_def dot_radius_def bell_right_x_def bell_top_y_def)
qed

theorem C4_notification_dot_last_witness:
  "\<exists>img. paint_icon 1024 = Inr img
      \<and> last (drawn img) = Ellipse (639, 215) (809, 385) (RGBA 239 68 68 255)
      \<and> getpixel (\<lambda>op p. case op of
                     Ellipse a b c \<Rightarrow> fst a \<le> fst p \<and> fst p \<le> fst b
                                     \<and> snd a \<le> snd p \<and> snd p \<le> snd b
                   | _ \<Rightarrow> True) img (724, 300) = Some (RGBA 239 68 68 255)
      \<and> getpixel (\<lambda>op p. case op of
                     Ellipse a b c \<Rightarrow> fst a \<le> fst p \<and> fst p \<le> fst b
                                     \<and> snd a \<le> snd p \<and> snd p \<le> snd b
                   | _ \<Rightarrow> True) img (512, 512) = Some (Named ''white'')"
proof -
  let ?img = "\<lparr>mode = ''RGBA'', width = 1024, height = 1024, initial = RGBA 0 0 0 0,
               drawn = draw_calls 1024\<rparr>"
  have pi: "paint_icon 1024 = Inr ?img" by (simp add: paint_icon_nonneg)
  from C4_notification_dot_last [OF pi] show ?thesis
    using pi by (simp add: draw_calls_def geometry_defs getpixel_def dot_color_def bg_color_def)
qed

text \<open>
  C5. In the image the function paints, the fifth drawing call is the clapper: a
  white ellipse whose bounding box is the square of half-side r = bell_width // 8
  around (center_x, clapper_y), with clapper_y = bell_bottom_y + r + rim_height * 2.
  The fourth call is the rim, which ends at bell_bottom_y + rim_height, and the
  clapper's box starts at or below that line. Only the notification dot is drawn
  after the clapper: every pixel of the canvas that the clapper covers and the dot
  does not is white in the finished image.
\<close>

theorem C5_clapper_below_rim:
  "paint_icon sz = Inr img \<Longrightarrow>
   (let r = bell_width sz div 8;
        y = bell_bottom_y sz + r + rim_height sz * 2
    in length (drawn img) = 6
       \<and> drawn img ! 4 =
         Ellipse (center_x sz - r, y - r) (center_x sz + r, y + r) (Named ''white'')
       \<and> drawn img ! 3 =
         Rectangle (bell_left_x sz, bell_bottom_y sz)
                   (bell_right_x sz, bell_bottom_y sz + rim_height sz) (Named ''white'')
       \<and> bell_bottom_y sz + rim_height sz \<le> y - r
       \<and> (\<forall>p. 0 \<le> fst p \<and> fst p < sz \<and> 0 \<le> snd p \<and> snd p < sz
                \<and> cov (drawn img ! 4) p \<and> \<not> cov (drawn img ! 5) p
              \<longrightarrow> getpixel cov img p = Some (Named ''white'')))"
proof -
  assume a: "paint_icon sz = Inr img"
  then have nn: "0 \<le> sz"
    and img: "img = \<lparr>mode = ''RGBA'', width = sz, height = sz, initial = RGBA 0 0 0 0,
                      drawn = draw_calls sz\<rparr>"
    by (simp_all add: paint_icon_Inr)
  have px: "getpixel cov img p = Some (Named ''white'')"
    if "0 \<le> fst p \<and> fst p < sz \<and> 0 \<le> snd p \<and> snd p < sz
        \<and> cov (drawn img ! 4) p \<and> \<not> cov (drawn img ! 5) p" for p
    using that unfolding getpixel_def img by (simp add: draw_calls_def)
  have c: "draw_calls sz ! 4 =
      Ellipse (center_x sz - clapper_radius sz, clapper_y sz - clapper_radius sz)
              (center_x sz + clapper_radius sz, clapper_y sz + clapper_radius sz)
              (Named ''white'')"
    and r: "draw_calls sz ! 3 =
      Rectangle (bell_left_x sz, bell_bottom_y sz)
                (bell_right_x sz, bell_bottom_y sz + rim_height sz) (Named ''white'')"
    and n: "length (draw_calls sz) = 6"
    by (simp_all add: draw_calls_def)
  show ?thesis
    unfolding Let_def
    using px rim_height_nonneg [OF nn]
    by (simp add: img c r n clapper_y_def clapper_radius_def)
qed

theorem C5_clapper_below_rim_witness:
  "\<exists>img. paint_icon 1024 = Inr img
      \<and> drawn img ! 4 = Ellipse (470, 641) (554, 725) (Named ''white'')
      \<and> drawn img ! 3 = Rectangle (342, 597) (682, 619) (Named ''white'')
      \<and> getpixel (\<lambda>op p. case op of
                     Ellipse a b c \<Rightarrow> fst a \<le> fst p \<and> fst p \<le> fst b
                                     \<and> snd a \<le> snd p \<and> snd p \<le> snd b
                   | Rounded_rectangle a b r c \<Rightarrow> True
                   | _ \<Rightarrow> False) img (512, 683) = Some (Named ''white'')
      \<and> getpixel (\<lambda>op p. case op of
                     Ellipse a b c \<Rightarrow> fst a \<le> fst p \<and> fst p \<le> fst b
                                     \<and> snd a \<le> snd p \<and> snd p \<le> snd b
                   | Rounded_rectangle a b r c \<Rightarrow> True
                   | _ \<Rightarrow> False) img (512, 800) = Some (RGBA 59 130 246 255)"
proof -
  let ?img = "\<lparr>mode = ''RGBA'', width = 1024, height = 1024, initial = RGBA 0 0 0 0,
               drawn = draw_calls 1024\<rparr>"
  have pi: "paint_icon 1024 = Inr ?img" by (simp add: paint_icon_nonneg)
  from C5_clapper_below_rim [OF pi] show ?thesis
    using pi by (simp add: draw_calls_def geometry_defs getpixel_def dot_color_def bg_color_def)
qed



text \<open>
  C10. For every positive size, every coordinate point of every drawing call (the
  rounded background rectangle, the bell polygon, the handle and rim rectangles,
  the clapper and dot ellipses) has both components between 0 and size.
\<close>

theorem C10_shapes_within_canvas:
  "0 < sz \<Longrightarrow> \<forall>op \<in> set (draw_calls sz). \<forall>p \<in> set (coords op). in_canvas sz p"
proof -
  assume "0 < sz"
  then have nn: "0 \<le> sz" by simp
  show ?thesis
    using coordinate_bounds [OF nn]
    by (simp add: draw_calls_def bell_points_def in_canvas_def)
qed

theorem C10_shapes_within_canvas_witness:
  "(0::int) < 1024
   \<and> list_all (\<lambda>op. list_all (in_canvas 1024) (coords op)) (draw_calls 1024)"
  using C10_shapes_within_canvas [of 1024] by (simp add: list_all_iff)

section \<open>Properties of the file system steps\<close>

lemma all_sep_iff: "xs = replicate (length xs) a \<longleftrightarrow> (\<forall>c \<in> set xs. c = a)"
  by (metis in_set_replicate replicate_length_same)

lemma path_head_Nil_iff: "path_head p = [] \<longleftrightarrow> CHR ''/'' \<notin> set p"
  by (auto simp add: path_head_def dropWhile_eq_Nil_conv)

lemma rstrip_sep_Nil_iff: "rstrip_sep s = [] \<longleftrightarrow> (\<forall>c \<in> set s. c = CHR ''/'')"
  by (auto simp add: rstrip_sep_def dropWhile_eq_Nil_conv)

lemma dirname_Nil_iff: "dirname p = [] \<longleftrightarrow> CHR ''/'' \<notin> set p"
proof -
  have "dirname p = [] \<longleftrightarrow> path_head p = []"
    unfolding dirname_def Let_def
    by (auto simp add: rstrip_sep_Nil_iff all_sep_iff)
  then show ?thesis by (simp add: path_head_Nil_iff)
qed

lemma os_makedirs_empty: "os_makedirs [] exist_ok w = Inl FileNotFoundError"
  by (simp add: os_makedirs_def)

lemma create_bare_fails:
  assumes "dirname p = []"
  shows "\<exists>e. create_notification_bell_icon png sz p w = Inl e"
    and "0 \<le> sz \<Longrightarrow> create_notification_bell_icon png sz p w = Inl FileNotFoundError"
  using assms
  by (auto simp add: create_notification_bell_icon_def os_makedirs_empty paint_icon_nonneg
      split: sum.splits)

subsection \<open>Splitting\<close>






subsection \<open>Walking\<close>








subsection \<open>mkdirs\<close>

lemma mkdirs_effect:
  "mkdirs e ns s cs = Inr ns' \<Longrightarrow>
     (\<forall>q \<in> set (visited s cs). ns' q = Some Dir)
     \<and> (\<forall>q. ns' q = ns q \<or> (q \<in> set (visited s cs) \<and> ns q = None \<and> ns' q = Some Dir))"
proof (induction cs arbitrary: ns s)
  case Nil
  then show ?case by simp
next
  case (Cons c cs)
  let ?n = "step s c"
  show ?case
  proof (cases "ns ?n")
    case None
    with Cons.prems have m: "mkdirs e (ns(?n \<mapsto> Dir)) ?n cs = Inr ns'" by simp
    note ih = Cons.IH [OF m]
    have n: "ns' ?n = Some Dir" using ih by (metis fun_upd_same option.distinct(1))
    have "ns' q = ns q \<or> (q \<in> set (visited s (c # cs)) \<and> ns q = None \<and> ns' q = Some Dir)" for q
    proof (cases "q = ?n")
      case True
      then show ?thesis using n None by simp
    next
      case False
      then show ?thesis using ih by (metis fun_upd_other list.set_intros(2) visited.simps(2))
    qed
    then show ?thesis using ih n by simp
  next
    case (Some nd)
    show ?thesis
    proof (cases nd)
      case Dir
      with Some Cons.prems have m: "mkdirs e ns ?n cs = Inr ns'"
        by (simp split: if_splits)
      note ih = Cons.IH [OF m]
      have n: "ns' ?n = Some Dir" using ih Some Dir by (metis option.distinct(1))
      show ?thesis using ih n by auto
    next
      case (File b)
      with Some Cons.prems show ?thesis by simp
    qed
  qed
qed


lemma mkdirs_idem:
  "\<forall>q \<in> set (visited s cs). ns q = Some Dir \<Longrightarrow> mkdirs True ns s cs = Inr ns"
  by (induction cs arbitrary: s) simp_all

subsection \<open>lookup\<close>

lemma lookup_result: "lookup ns s cs = Inr loc \<Longrightarrow> loc = foldl step s cs"
  by (induction cs arbitrary: s) (auto split: option.splits node.splits)


subsection \<open>The directory part of a path\<close>

lemma path_head_basename: "path_head p @ basename p = p"
proof -
  have "path_head p @ basename p
        = rev (takeWhile (\<lambda>c. c \<noteq> CHR ''/'') (rev p) @ dropWhile (\<lambda>c. c \<noteq> CHR ''/'') (rev p))"
    unfolding path_head_def basename_def by (simp only: rev_append)
  then show ?thesis by simp
qed


lemma path_head_ends_with_sep:
  assumes "path_head p \<noteq> []"
  shows "\<exists>h. path_head p = h @ [CHR ''/'']"
proof -
  let ?d = "dropWhile (\<lambda>c. c \<noteq> CHR ''/'') (rev p)"
  have ne: "?d \<noteq> []" using assms by (simp add: path_head_def)
  then have "hd ?d = CHR ''/''" using hd_dropWhile [OF ne] by simp
  with ne have "?d = CHR ''/'' # tl ?d" by (cases ?d) simp_all
  then have "path_head p = rev (tl ?d) @ [CHR ''/'']"
    unfolding path_head_def by (metis rev.simps(2))
  then show ?thesis by blast
qed

lemma rstrip_sep_snoc: "rstrip_sep (h @ [CHR ''/'']) = rstrip_sep h"
  by (simp add: rstrip_sep_def)

lemma rstrip_sep_form: "\<exists>k. s = rstrip_sep s @ replicate k (CHR ''/'')"
proof -
  let ?t = "takeWhile (\<lambda>c. c = CHR ''/'') (rev s)"
  have "\<forall>c \<in> set ?t. c = CHR ''/''" by (auto dest: set_takeWhileD)
  then have t: "?t = replicate (length ?t) (CHR ''/'')" by (simp only: all_sep_iff)
  have "s = rev (?t @ dropWhile (\<lambda>c. c = CHR ''/'') (rev s))" by simp
  also have "\<dots> = rstrip_sep s @ rev ?t" by (simp only: rev_append rstrip_sep_def)
  also have "rev ?t = replicate (length ?t) (CHR ''/'')" by (subst t) simp
  finally show ?thesis by blast
qed

lemma replicate_snoc_shift: "replicate k c @ c # b = c # replicate k c @ b"
  by (induction k) simp_all

lemma dirname_form:
  assumes "dirname p \<noteq> []"
  shows "\<exists>d k j. (j = 0 \<or> j = Suc k)
           \<and> dirname p = d @ replicate j (CHR ''/'')
           \<and> p = (d @ replicate k (CHR ''/'')) @ CHR ''/'' # basename p"
proof -
  have hne: "path_head p \<noteq> []"
    using assms by (auto simp add: dirname_def Let_def split: if_splits)
  then obtain h where h: "path_head p = h @ [CHR ''/'']"
    using path_head_ends_with_sep by blast
  define d where "d = rstrip_sep h"
  obtain k where k: "h = d @ replicate k (CHR ''/'')"
    unfolding d_def using rstrip_sep_form by blast
  have "p = h @ CHR ''/'' # basename p"
    using path_head_basename [of p] by (simp add: h)
  then have p: "p = (d @ replicate k (CHR ''/'')) @ CHR ''/'' # basename p"
    by (simp only: k [symmetric])
  have hd: "path_head p = d @ replicate (Suc k) (CHR ''/'')"
    by (simp add: h k replicate_append_same)
  have "dirname p = d \<or> dirname p = path_head p"
    unfolding dirname_def Let_def by (simp add: h rstrip_sep_snoc d_def)
  then have "dirname p = d @ replicate 0 (CHR ''/'') \<or> dirname p = d @ replicate (Suc k) (CHR ''/'')"
    by (simp only: hd replicate_0 append_Nil2)
  with p show ?thesis by blast
qed

lemma dirname_prefix:
  assumes "dirname p \<noteq> []"
  shows "\<exists>r. p = dirname p @ r"
proof -
  obtain d k j where j: "j = 0 \<or> j = Suc k"
    and d: "dirname p = d @ replicate j (CHR ''/'')"
    and p: "p = (d @ replicate k (CHR ''/'')) @ CHR ''/'' # basename p"
    using dirname_form [OF assms] by blast
  from j show ?thesis
  proof
    assume "j = 0"
    then have "dirname p = d" using d by simp
    then have "p = dirname p @ (replicate k (CHR ''/'') @ CHR ''/'' # basename p)"
      using p by simp
    then show ?thesis ..
  next
    assume "j = Suc k"
    then have "dirname p = d @ CHR ''/'' # replicate k (CHR ''/'')" using d by simp
    then have "dirname p @ basename p = (d @ replicate k (CHR ''/'')) @ CHR ''/'' # basename p"
      by (simp add: replicate_snoc_shift)
    then have "p = dirname p @ basename p" using p by simp
    then show ?thesis ..
  qed
qed

lemma dirname_Nil [simp]: "dirname [] = []"
  by (simp add: dirname_def path_head_def)

lemma start_dirname:
  assumes "dirname p \<noteq> []"
  shows "start w (dirname p) = start w p"
proof -
  obtain r where r: "p = dirname p @ r" using dirname_prefix [OF assms] by blast
  from r have "hd p = hd (dirname p @ r)" by (rule arg_cong)
  also have "\<dots> = hd (dirname p)" using assms by simp
  finally have h: "hd p = hd (dirname p)" .
  have "p \<noteq> []" using assms by auto
  with h show ?thesis using assms by (simp add: start_def)
qed


subsection \<open>The steps of the function\<close>

lemma os_makedirs_Inr:
  "os_makedirs name e w = Inr w1 \<longleftrightarrow>
     name \<noteq> [] \<and> (\<exists>ns. mkdirs e (nodes w) (start w name) (split_sep name) = Inr ns
                      \<and> w1 = w\<lparr>nodes := ns\<rparr>)"
  by (auto simp add: os_makedirs_def split: sum.splits)

lemma Image_save_Inr:
  "Image_save png img path w = Inr w2 \<longleftrightarrow>
     path \<noteq> [] \<and> lookup (nodes w) (start w path) (split_sep path) = Inr (target w path)
     \<and> nodes w (target w path) \<noteq> Some Dir
     \<and> (\<exists>bytes. png img = Inr bytes
            \<and> w2 = w\<lparr>nodes := (nodes w)(target w path \<mapsto> File bytes)\<rparr>)"
proof -
  have t: "loc = target w path" if "lookup (nodes w) (start w path) (split_sep path) = Inr loc"
    for loc using lookup_result [OF that] by (simp add: target_def)
  show ?thesis
    unfolding Image_save_def open_w_def
    by (auto split: sum.splits option.splits node.splits if_splits dest: t)
qed

lemma start_nodes_update [simp]: "start (w\<lparr>nodes := ns\<rparr>) p = start w p"
  by (simp add: start_def)

lemma target_nodes_update [simp]: "target (w\<lparr>nodes := ns\<rparr>) p = target w p"
  by (simp add: target_def)

text \<open>
  Directory creation with \<open>exist_ok\<close> is idempotent: repeated on its own result it
  succeeds and changes nothing.
\<close>

lemma os_makedirs_idempotent:
  assumes "os_makedirs name True w = Inr w1"
  shows "os_makedirs name True w1 = Inr w1"
proof -
  from assms obtain ns where n: "name \<noteq> []"
    and m: "mkdirs True (nodes w) (start w name) (split_sep name) = Inr ns"
    and w1: "w1 = w\<lparr>nodes := ns\<rparr>"
    unfolding os_makedirs_Inr by blast
  have "\<forall>q \<in> set (visited (start w name) (split_sep name)). ns q = Some Dir"
    using mkdirs_effect [OF m] by blast
  then have "mkdirs True ns (start w name) (split_sep name) = Inr ns"
    by (rule mkdirs_idem)
  then show ?thesis
    unfolding os_makedirs_Inr w1 using n by simp
qed

text \<open>What a successful call has done, step by step.\<close>

lemma create_effect:
  assumes "create_notification_bell_icon png sz p w = Inr w'"
  shows "\<exists>img bytes ns1.
           paint_icon sz = Inr img \<and> png img = Inr bytes \<and> dirname p \<noteq> []
           \<and> mkdirs True (nodes w) (start w p) (split_sep (dirname p)) = Inr ns1
           \<and> ns1 (target w p) \<noteq> Some Dir
           \<and> w' = \<lparr>nodes = ns1(target w p \<mapsto> File bytes), cwd = cwd w,
                   stdout = stdout w @ [''Icon generated: '' @ p,
                     ''Size: '' @ str_int sz @ ''x'' @ str_int sz @ '' pixels'']\<rparr>"
proof -
  obtain img w1 w2 where img: "paint_icon sz = Inr img"
    and w1: "os_makedirs (dirname p) True w = Inr w1"
    and w2: "Image_save png img p w1 = Inr w2"
    and w': "w' = print (''Size: '' @ str_int sz @ ''x'' @ str_int sz @ '' pixels'')
                    (print (''Icon generated: '' @ p) w2)"
    using assms unfolding create_notification_bell_icon_def
    by (auto split: sum.splits)
  from w1 obtain ns1 where d: "dirname p \<noteq> []"
    and m: "mkdirs True (nodes w) (start w (dirname p)) (split_sep (dirname p)) = Inr ns1"
    and w1': "w1 = w\<lparr>nodes := ns1\<rparr>"
    unfolding os_makedirs_Inr by blast
  from w2 obtain bytes where b: "png img = Inr bytes"
    and t: "ns1 (target w p) \<noteq> Some Dir"
    and w2': "w2 = w1\<lparr>nodes := ns1(target w p \<mapsto> File bytes)\<rparr>"
    unfolding Image_save_Inr w1' by auto
  have "w' = \<lparr>nodes = ns1(target w p \<mapsto> File bytes), cwd = cwd w,
               stdout = stdout w @ [''Icon generated: '' @ p,
                 ''Size: '' @ str_int sz @ ''x'' @ str_int sz @ '' pixels'']\<rparr>"
    unfolding w' w2' w1' print_def by simp
  with img b d m t show ?thesis
    unfolding start_dirname [OF d] by blast
qed


text \<open>
  C9. A path without a slash has the empty directory part, and only such a path
  has. For such a path the directory-creation step is called with the empty name
  and raises FileNotFoundError, so the call ends in an error (that error, when the
  size is not negative) and the save after it is not reached. A call that succeeds
  therefore has a path with a non-empty directory part.
\<close>

theorem C9_bare_filename_fails:
  "(dirname output_path = [] \<longleftrightarrow> CHR ''/'' \<notin> set output_path)
   \<and> (CHR ''/'' \<notin> set output_path \<longrightarrow>
        os_makedirs (dirname output_path) True w = Inl FileNotFoundError
        \<and> (\<exists>e. create_notification_bell_icon png sz output_path w = Inl e)
        \<and> (0 \<le> sz \<longrightarrow>
             create_notification_bell_icon png sz output_path w = Inl FileNotFoundError))
   \<and> (\<forall>w'. create_notification_bell_icon png sz output_path w = Inr w' \<longrightarrow>
          dirname output_path \<noteq> [])"
proof (intro conjI impI allI)
  show "dirname output_path = [] \<longleftrightarrow> CHR ''/'' \<notin> set output_path"
    by (rule dirname_Nil_iff)
next
  assume a: "CHR ''/'' \<notin> set output_path"
  then have d: "dirname output_path = []" by (simp add: dirname_Nil_iff)
  show "os_makedirs (dirname output_path) True w = Inl FileNotFoundError"
    by (simp add: d os_makedirs_empty)
  show "\<exists>e. create_notification_bell_icon png sz output_path w = Inl e"
    using d by (rule create_bare_fails(1))
  show "create_notification_bell_icon png sz output_path w = Inl FileNotFoundError" if "0 \<le> sz"
    using d that by (rule create_bare_fails(2))
next
  fix w' assume "create_notification_bell_icon png sz output_path w = Inr w'"
  then show "dirname output_path \<noteq> []"
    using create_bare_fails(1) [of output_path png sz w] by auto
qed

theorem C9_bare_filename_fails_witness:
  "CHR ''/'' \<notin> set ''icon.png''
   \<and> create_notification_bell_icon (\<lambda>img. Inr []) 1024 ''icon.png''
        \<lparr>nodes = [[] \<mapsto> Dir], cwd = [], stdout = []\<rparr> = Inl FileNotFoundError"
  using C9_bare_filename_fails [of "''icon.png''" "\<lparr>nodes = [[] \<mapsto> Dir], cwd = [], stdout = []\<rparr>"
      "\<lambda>img. Inr []" 1024]
  by simp






text \<open>
  C2. The bytes written depend on the size alone: two successful calls with the
  same size, whatever their output paths and whatever the file system and console
  they start from, leave files with the same contents at their output locations.
  The PNG encoder is the same function of the image in both calls.
\<close>

theorem C2_same_size_same_bytes:
  "create_notification_bell_icon png sz p1 w1 = Inr w1' \<Longrightarrow>
   create_notification_bell_icon png sz p2 w2 = Inr w2' \<Longrightarrow>
   \<exists>bytes. nodes w1' (target w1 p1) = Some (File bytes)
          \<and> nodes w2' (target w2 p2) = Some (File bytes)"
proof -
  assume a: "create_notification_bell_icon png sz p1 w1 = Inr w1'"
    and b: "create_notification_bell_icon png sz p2 w2 = Inr w2'"
  from create_effect [OF a] obtain img1 bytes1 where
    i1: "paint_icon sz = Inr img1" and e1: "png img1 = Inr bytes1"
    and f1: "nodes w1' (target w1 p1) = Some (File bytes1)"
    by auto
  from create_effect [OF b] obtain img2 bytes2 where
    i2: "paint_icon sz = Inr img2" and e2: "png img2 = Inr bytes2"
    and f2: "nodes w2' (target w2 p2) = Some (File bytes2)"
    by auto
  have "bytes1 = bytes2" using i1 i2 e1 e2 by simp
  with f1 f2 show ?thesis by blast
qed

theorem C2_same_size_same_bytes_witness:
  "\<exists>w1' w2'.
     create_notification_bell_icon (\<lambda>img. Inr [137, 80, 78, 71]) 1024 ''out/icon.png''
       \<lparr>nodes = [[] \<mapsto> Dir], cwd = [], stdout = []\<rparr> = Inr w1'
     \<and> create_notification_bell_icon (\<lambda>img. Inr [137, 80, 78, 71]) 1024 ''/tmp/b.png''
       \<lparr>nodes = [[] \<mapsto> Dir, [''home''] \<mapsto> Dir], cwd = [''home''], stdout = [''$'']\<rparr> = Inr w2'
     \<and> (\<exists>bytes. nodes w1' [''out'', ''icon.png''] = Some (File bytes)
               \<and> nodes w2' [''tmp'', ''b.png''] = Some (File bytes))"
proof -
  let ?png = "\<lambda>img::image. (Inr [137, 80, 78, 71] :: py_error + nat list)"
  let ?wa = "\<lparr>nodes = [[] \<mapsto> Dir], cwd = [], stdout = []\<rparr>"
  let ?wb = "\<lparr>nodes = [[] \<mapsto> Dir, [''home''] \<mapsto> Dir], cwd = [''home''], stdout = [''$'']\<rparr>"
  let ?wa' = "\<lparr>nodes = [[] \<mapsto> Dir, [''out''] \<mapsto> Dir,
                        [''out'', ''icon.png''] \<mapsto> File [137, 80, 78, 71]],
               cwd = [], stdout = [''Icon generated: out/icon.png'', ''Size: 1024x1024 pixels'']\<rparr>"
  let ?wb' = "\<lparr>nodes = [[] \<mapsto> Dir, [''home''] \<mapsto> Dir, [''tmp''] \<mapsto> Dir,
                        [''tmp'', ''b.png''] \<mapsto> File [137, 80, 78, 71]],
               cwd = [''home''],
               stdout = [''$'', ''Icon generated: /tmp/b.png'', ''Size: 1024x1024 pixels'']\<rparr>"
  have a: "create_notification_bell_icon ?png 1024 ''out/icon.png'' ?wa = Inr ?wa'"
    by (simp add: create_notification_bell_icon_def paint_icon_nonneg dirname_def path_head_def
        os_makedirs_def rstrip_sep_def start_def step_def Image_save_def open_w_def print_def
        str_int_def digits10.simps)
  have b: "create_notification_bell_icon ?png 1024 ''/tmp/b.png'' ?wb = Inr ?wb'"
    by (simp add: create_notification_bell_icon_def paint_icon_nonneg dirname_def path_head_def
        os_makedirs_def rstrip_sep_def start_def step_def Image_save_def open_w_def print_def
        str_int_def digits10.simps)
  have ta: "target ?wa ''out/icon.png'' = [''out'', ''icon.png'']"
    and tb: "target ?wb ''/tmp/b.png'' = [''tmp'', ''b.png'']"
    by (simp_all add: target_def start_def step_def)
  from C2_same_size_same_bytes [OF a b] show ?thesis
    unfolding ta tb using a b by blast
qed

end
